theory Spec2Isabelle
  imports Main
begin

section \<open>Go strings, runes and the UTF-8 codec\<close>

text \<open>
  A Go \<^verbatim>\<open>string\<close> is a sequence of bytes: it is modelled as \<^typ>\<open>string\<close>, a list of
  8-bit characters, so that \<^verbatim>\<open>len(s)\<close> is \<^term>\<open>length s\<close> and \<^verbatim>\<open>s[:k]\<close> is
  \<^term>\<open>take k s\<close>. A \<^verbatim>\<open>rune\<close> is a code point; the runes that \<^verbatim>\<open>[]rune(s)\<close> produces
  lie between 0 and 0x10FFFF. Go's \<^verbatim>\<open>rune\<close> is \<^verbatim>\<open>int32\<close>; no arithmetic of the program on
  runes can leave that range, so a rune is an \<^typ>\<open>int\<close> here.

  The functions of this section are Go's standard library (packages \<^verbatim>\<open>unicode/utf8\<close>,
  \<^verbatim>\<open>unicode\<close> and \<^verbatim>\<open>strings\<close>), which \<^verbatim>\<open>database/init.go\<close> calls. Masks and shifts of
  the library are written as \<open>mod\<close>, \<open>div\<close> and multiplication by powers of two.
\<close>

type_synonym rune = int

definition RuneError :: rune where
  "RuneError = 0xFFFD"

text \<open>
  \<^verbatim>\<open>utf8.DecodeRuneInString\<close>: the first rune of a string and its width in bytes. An
  invalid or truncated encoding gives \<open>(RuneError, 1)\<close>, the empty string \<open>(RuneError, 0)\<close>.
  The accepted range of the second byte depends on the first one (no overlong forms, no
  surrogates, nothing above U+10FFFF).
\<close>

fun DecodeRune :: "string \<Rightarrow> rune \<times> nat" where
  "DecodeRune [] = (RuneError, 0)"
| "DecodeRune (c0 # rest) =
    (let p0 = (of_char c0 :: int) in
     if p0 < 0x80 then (p0, 1)
     else if p0 < 0xC2 \<or> 0xF4 < p0 then (RuneError, 1)
     else
       let sz = (if p0 < 0xE0 then 2 else if p0 < 0xF0 then 3 else 4 :: nat);
           lo = (if p0 = 0xE0 then 0xA0 else if p0 = 0xF0 then 0x90 else 0x80 :: int);
           hi = (if p0 = 0xED then 0x9F else if p0 = 0xF4 then 0x8F else 0xBF :: int)
       in
         if length (c0 # rest) < sz then (RuneError, 1)
         else
           let b1 = (of_char (rest ! 0) :: int) in
           if b1 < lo \<or> hi < b1 then (RuneError, 1)
           else if sz \<le> 2 then (p0 mod 32 * 64 + b1 mod 64, 2)
           else
             let b2 = (of_char (rest ! 1) :: int) in
             if b2 < 0x80 \<or> 0xBF < b2 then (RuneError, 1)
             else if sz \<le> 3 then (p0 mod 16 * 4096 + b1 mod 64 * 64 + b2 mod 64, 3)
             else
               let b3 = (of_char (rest ! 2) :: int) in
               if b3 < 0x80 \<or> 0xBF < b3 then (RuneError, 1)
               else (p0 mod 8 * 262144 + b1 mod 64 * 4096 + b2 mod 64 * 64 + b3 mod 64, 4))"

text \<open>
  What \<^verbatim>\<open>for i, r := range s\<close> iterates over: each rune with the bytes it was decoded
  from. \<^verbatim>\<open>[]rune(s)\<close> is the list of the runes alone.
\<close>

fun segments :: "string \<Rightarrow> (rune \<times> string) list" where
  "segments [] = []"
| "segments (c # cs) =
    (case DecodeRune (c # cs) of
       (r, sz) \<Rightarrow> (r, c # take (sz - 1) cs) # segments (drop (sz - 1) cs))"

definition runes :: "string \<Rightarrow> rune list" where
  "runes s = map fst (segments s)"

text \<open>
  \<^verbatim>\<open>utf8.AppendRune\<close>: the UTF-8 encoding of a rune; a negative value, a surrogate or a
  value above U+10FFFF is encoded as U+FFFD.
\<close>

definition EncodeRune :: "rune \<Rightarrow> string" where
  "EncodeRune r =
    (if 0 \<le> r \<and> r \<le> 0x7F then [char_of r]
     else if 0 \<le> r \<and> r \<le> 0x7FF then [char_of (0xC0 + r div 64), char_of (0x80 + r mod 64)]
     else if r < 0 \<or> 0x10FFFF < r \<or> (0xD800 \<le> r \<and> r \<le> 0xDFFF)
     then [CHR 0xEF, CHR 0xBF, CHR 0xBD]
     else if r \<le> 0xFFFF then
       [char_of (0xE0 + r div 4096), char_of (0x80 + r div 64 mod 64), char_of (0x80 + r mod 64)]
     else
       [char_of (0xF0 + r div 262144), char_of (0x80 + r div 4096 mod 64),
        char_of (0x80 + r div 64 mod 64), char_of (0x80 + r mod 64)])"

text \<open>\<^verbatim>\<open>strings.Builder.WriteRune\<close> on the contents of the builder, and \<^verbatim>\<open>string(rs)\<close>.\<close>

definition WriteRune :: "string \<Rightarrow> rune \<Rightarrow> string" where
  "WriteRune buf r = buf @ EncodeRune r"

definition string_of_runes :: "rune list \<Rightarrow> string" where
  "string_of_runes rs = concat (map EncodeRune rs)"

text \<open>\<^verbatim>\<open>utf8.ValidString\<close>: no step of the decoding meets an invalid byte.\<close>

fun ValidString :: "string \<Rightarrow> bool" where
  "ValidString [] = True"
| "ValidString (c # cs) =
    (case DecodeRune (c # cs) of
       (r, sz) \<Rightarrow> \<not> (r = RuneError \<and> sz = 1) \<and> ValidString (drop (sz - 1) cs))"

text \<open>
  \<^verbatim>\<open>unicode.IsSpace\<close>: tab, newline, vertical tab, form feed, carriage return, space,
  U+0085, U+00A0, and the other characters of Unicode's White_Space property.
\<close>

definition IsSpace :: "rune \<Rightarrow> bool" where
  "IsSpace r =
    (r = 0x09 \<or> r = 0x0A \<or> r = 0x0B \<or> r = 0x0C \<or> r = 0x0D \<or> r = 0x20 \<or>
     r = 0x85 \<or> r = 0xA0 \<or> r = 0x1680 \<or> (0x2000 \<le> r \<and> r \<le> 0x200A) \<or>
     r = 0x2028 \<or> r = 0x2029 \<or> r = 0x202F \<or> r = 0x205F \<or> r = 0x3000)"

text \<open>
  \<^verbatim>\<open>utf8.RuneStart\<close> and \<^verbatim>\<open>utf8.DecodeLastRuneInString\<close>: the last rune of a string and
  its width. The library walks back over at most three continuation bytes to a byte that
  can start an encoding, decodes forward from there, and accepts the rune when it ends
  exactly at the end of the string.
\<close>

definition RuneStart :: "char \<Rightarrow> bool" where
  "RuneStart b = (\<not> (0x80 \<le> (of_char b :: int) \<and> (of_char b :: int) < 0xC0))"

function back_to_start :: "string \<Rightarrow> int \<Rightarrow> int \<Rightarrow> int" where
  "back_to_start s start lim =
    (if lim \<le> start then
       (if RuneStart (s ! nat start) then start else back_to_start s (start - 1) lim)
     else start)"
  by pat_completeness auto
termination
  by (relation "measure (\<lambda>(s, start, lim). nat (start + 1 - lim))") auto

declare back_to_start.simps [simp del]

definition DecodeLastRune :: "string \<Rightarrow> rune \<times> nat" where
  "DecodeLastRune s =
    (let end = int (length s) in
     if end = 0 then (RuneError, 0)
     else
       let r = (of_char (s ! nat (end - 1)) :: int) in
       if r < 0x80 then (r, 1)
       else
         let lim = max (end - 4) 0;
             start0 = back_to_start s (end - 2) lim;
             start = (if start0 < 0 then 0 else start0);
             (r, size) = DecodeRune (drop (nat start) s)
         in if start + int size \<noteq> end then (RuneError, 1) else (r, size))"

text \<open>
  \<^verbatim>\<open>strings.TrimSpace\<close> removes the leading and the trailing white space of a string:
  \<^verbatim>\<open>TrimLeftFunc\<close> decodes runes from the front, \<^verbatim>\<open>TrimRightFunc\<close> from the back. (The
  library's loop over leading and trailing ASCII bytes computes the same slice without
  decoding.)
\<close>

fun TrimLeftSpace :: "string \<Rightarrow> string" where
  "TrimLeftSpace [] = []"
| "TrimLeftSpace (c # cs) =
    (case DecodeRune (c # cs) of
       (r, sz) \<Rightarrow> if IsSpace r then TrimLeftSpace (drop (sz - 1) cs) else c # cs)"

text \<open>Both decoders consume at least one byte of a non-empty string, and no more than it has.\<close>

lemma DecodeRune_size_aux:
  "1 \<le> snd (DecodeRune (c # cs)) \<and> snd (DecodeRune (c # cs)) \<le> length (c # cs)"
  by (simp add: Let_def Suc_le_eq)

lemma DecodeRune_size:
  "s \<noteq> [] \<Longrightarrow> DecodeRune s = (r, sz) \<Longrightarrow> 1 \<le> sz \<and> sz \<le> length s"
  using DecodeRune_size_aux [of "hd s" "tl s"] by simp

lemma back_to_start_le: "back_to_start s start lim \<le> start"
  by (induction s start lim rule: back_to_start.induct) (subst back_to_start.simps, auto)

lemma DecodeLastRune_size_aux:
  assumes "s \<noteq> []"
  shows "1 \<le> snd (DecodeLastRune s) \<and> snd (DecodeLastRune s) \<le> length s"
proof -
  define start0 where
    "start0 = back_to_start s (int (length s) - 2) (max (int (length s) - 4) 0)"
  define k where "k = nat (if start0 < 0 then 0 else start0)"
  have "start0 \<le> int (length s) - 2"
    unfolding start0_def by (rule back_to_start_le)
  with assms have k: "k < length s"
    by (auto simp: k_def)
  then have ne: "drop k s \<noteq> []" by simp
  obtain r sz where d: "DecodeRune (drop k s) = (r, sz)"
    by (cases "DecodeRune (drop k s)") auto
  from DecodeRune_size [OF ne d] have sz: "1 \<le> sz" "sz \<le> length s - k" by auto
  have "snd (DecodeLastRune s) = 1 \<or> snd (DecodeLastRune s) = sz"
    using assms d unfolding DecodeLastRune_def Let_def start0_def [symmetric]
    by (auto simp: k_def split: prod.splits if_splits)
  with sz k show ?thesis by auto
qed

lemma DecodeLastRune_size:
  "s \<noteq> [] \<Longrightarrow> DecodeLastRune s = (r, sz) \<Longrightarrow> 1 \<le> sz \<and> sz \<le> length s"
  using DecodeLastRune_size_aux [of s] by simp

function TrimRightSpace :: "string \<Rightarrow> string" where
  "TrimRightSpace s =
    (if s = [] then []
     else
       (case DecodeLastRune s of
          (r, sz) \<Rightarrow> if IsSpace r then TrimRightSpace (take (length s - sz) s) else s))"
  by pat_completeness auto
termination
  by (relation "measure length") (auto dest!: DecodeLastRune_size [OF _ sym])

declare TrimRightSpace.simps [simp del]

definition TrimSpace :: "string \<Rightarrow> string" where
  "TrimSpace s = TrimRightSpace (TrimLeftSpace s)"

section \<open>The statement splitter: \<^verbatim>\<open>parseSQL\<close>\<close>

text \<open>
  The local variables of \<^verbatim>\<open>parseSQL\<close> that the loop updates: the statements found so
  far, the contents of the builder, and the three mode flags.
\<close>

record scan =
  statements :: "string list"
  currentStmt :: string
  inString :: bool
  inBlockComment :: bool
  inLineComment :: bool

datatype error = Error string

text \<open>
  One pass through the body of the \<^verbatim>\<open>for\<close> loop at index \<open>i\<close> (with \<open>i < n\<close>). The result
  is the value of \<open>i\<close> when the body ends (an \<^verbatim>\<open>i++\<close> inside the body skips the character
  looked ahead at) and the updated variables; every branch of the source ends in
  \<^verbatim>\<open>continue\<close> or falls off the end of the body.
  The runes compared with are \<open>'\n'\<close> = 0x0A, \<open>'\''\<close> = 0x27, \<open>'*'\<close> = 0x2A, \<open>'-'\<close> = 0x2D,
  \<open>'/'\<close> = 0x2F and \<open>';'\<close> = 0x3B.
\<close>

definition body :: "rune list \<Rightarrow> nat \<Rightarrow> scan \<Rightarrow> nat \<times> scan" where
  "body rs i s =
    (let c = rs ! i; n = length rs in
     if inLineComment s then
       (if c = 0x0A
        then (i, s\<lparr>inLineComment := False, currentStmt := WriteRune (currentStmt s) 0x0A\<rparr>)
        else (i, s))
     else if inBlockComment s then
       (if c = 0x2A \<and> i + 1 < n \<and> rs ! (i + 1) = 0x2F
        then (i + 1, s\<lparr>inBlockComment := False\<rparr>)
        else (i, s))
     else if inString s then
       (let s1 = s\<lparr>currentStmt := WriteRune (currentStmt s) c\<rparr> in
        if c = 0x27 then
          (if i + 1 < n \<and> rs ! (i + 1) = 0x27
           then (i + 1, s1\<lparr>currentStmt := WriteRune (currentStmt s1) (rs ! (i + 1))\<rparr>)
           else (i, s1\<lparr>inString := False\<rparr>))
        else (i, s1))
     else if c = 0x27 then
       (i, s\<lparr>inString := True, currentStmt := WriteRune (currentStmt s) c\<rparr>)
     else if c = 0x2D \<and> i + 1 < n \<and> rs ! (i + 1) = 0x2D then
       (i + 1, s\<lparr>inLineComment := True\<rparr>)
     else if c = 0x2F \<and> i + 1 < n \<and> rs ! (i + 1) = 0x2A then
       (i + 1, s\<lparr>inBlockComment := True\<rparr>)
     else if c = 0x3B then
       (let stmt = TrimSpace (currentStmt s) in
        (i, s\<lparr>statements := (if stmt \<noteq> [] then statements s @ [stmt] else statements s),
               currentStmt := []\<rparr>))
     else (i, s\<lparr>currentStmt := WriteRune (currentStmt s) c\<rparr>))"

lemma body_index: "body rs i s = (i', s') \<Longrightarrow> i' = i \<or> i' = i + 1"
  by (auto simp: body_def Let_def split: if_splits)

text \<open>\<^verbatim>\<open>for i := 0; i < n; i++ { ... }\<close>, started at any index.\<close>

function loop :: "rune list \<Rightarrow> nat \<Rightarrow> scan \<Rightarrow> scan" where
  "loop rs i s =
    (if i < length rs then (case body rs i s of (i', s') \<Rightarrow> loop rs (i' + 1) s') else s)"
  by pat_completeness auto
termination
  by (relation "measure (\<lambda>(rs, i, s). length rs - i)") (auto dest: body_index [OF sym])

declare loop.simps [simp del]

definition init :: scan where
  "init = \<lparr>statements = [], currentStmt = [], inString = False,
           inBlockComment = False, inLineComment = False\<rparr>"

text \<open>
  \<^verbatim>\<open>parseSQL\<close> returns the statements and an error; \<open>None\<close> is Go's \<^verbatim>\<open>nil\<close> error.
\<close>

definition parseSQL :: "string \<Rightarrow> string list \<times> error option" where
  "parseSQL content =
    (let rs = runes content;
         s = loop rs 0 init;
         remaining = TrimSpace (currentStmt s)
     in (if remaining \<noteq> [] then statements s @ [remaining] else statements s, None))"


definition emit :: "scan \<Rightarrow> string list" where
  "emit s =
    (let r = TrimSpace (currentStmt s) in if r \<noteq> [] then statements s @ [r] else statements s)"


section \<open>The display normalizer: \<^verbatim>\<open>truncateStatement\<close>\<close>

text \<open>
  \<^verbatim>\<open>strings.Fields\<close> (that is, \<^verbatim>\<open>FieldsFunc\<close> with \<^verbatim>\<open>unicode.IsSpace\<close>): the maximal runs
  of non-space characters. The library's variable \<^verbatim>\<open>start\<close> is \<open>None\<close> outside a field and
  holds the bytes of the field read so far inside one.
\<close>

fun fields_loop :: "(rune \<times> string) list \<Rightarrow> string option \<Rightarrow> string list" where
  "fields_loop [] start = (case start of Some f \<Rightarrow> [f] | None \<Rightarrow> [])"
| "fields_loop ((r, bs) # xs) start =
    (if IsSpace r then
       (case start of Some f \<Rightarrow> f # fields_loop xs None | None \<Rightarrow> fields_loop xs None)
     else
       (case start of Some f \<Rightarrow> fields_loop xs (Some (f @ bs))
        | None \<Rightarrow> fields_loop xs (Some bs)))"

definition Fields :: "string \<Rightarrow> string list" where
  "Fields s = fields_loop (segments s) None"

text \<open>\<^verbatim>\<open>strings.Join\<close>.\<close>

fun Join :: "string list \<Rightarrow> string \<Rightarrow> string" where
  "Join [] sep = []"
| "Join [x] sep = x"
| "Join (x # y # ys) sep = x @ sep @ Join (y # ys) sep"

text \<open>
  The slice expression \<^verbatim>\<open>s[:k]\<close> panics when \<open>k\<close> is negative or exceeds \<^verbatim>\<open>len(s)\<close>.
\<close>

datatype panic = SliceBoundsOutOfRange

definition slice_to :: "string \<Rightarrow> int \<Rightarrow> panic + string" where
  "slice_to s k =
    (if 0 \<le> k \<and> k \<le> int (length s) then Inr (take (nat k) s)
     else Inl SliceBoundsOutOfRange)"

text \<open>
  \<^verbatim>\<open>truncateStatement\<close>. \<^verbatim>\<open>maxLen\<close> is a Go \<^verbatim>\<open>int\<close>; \<^verbatim>\<open>maxLen - 3\<close> wraps around only
  below \<open>-2^63 + 3\<close>, where the wrapped bound exceeds every length and the slice panics as
  it does for the negative bound computed here.
\<close>

definition truncateStatement :: "string \<Rightarrow> int \<Rightarrow> panic + string" where
  "truncateStatement stmt maxLen =
    (let stmt = Join (Fields stmt) '' '' in
     if int (length stmt) \<le> maxLen then Inr stmt
     else
       (case slice_to stmt (maxLen - 3) of
          Inl p \<Rightarrow> Inl p
        | Inr prefix \<Rightarrow> Inr (prefix @ ''...'')))"

section \<open>Facts about the UTF-8 codec\<close>

lemma list4_cases:
  obtains "xs = []" | a where "xs = [a]" | a b where "xs = [a, b]"
  | a b c ys where "xs = a # b # c # ys"
  by (cases xs; cases "tl xs"; cases "tl (tl xs)") auto




















section \<open>Facts about \<^verbatim>\<open>TrimSpace\<close>\<close>

text \<open>
  Cutting a string short either leaves its first rune as it was or makes the decoder
  report an error, and the error rune is no white space; so trimming on the right keeps
  the string trimmed on the left, and trimming twice is trimming once.
\<close>

lemma DecodeRune_take3: "DecodeRune (c # take 3 cs) = DecodeRune (c # cs)"
  by (cases cs rule: list4_cases) (simp_all add: Let_def)

lemma DecodeRune_take_short:
  "j < 3 \<Longrightarrow> fst (DecodeRune (c # take j cs)) = fst (DecodeRune (c # cs)) \<or>
     fst (DecodeRune (c # take j cs)) = RuneError"
proof -
  assume "j < 3"
  then consider "j = 0" | "j = 1" | "j = 2" by linarith
  then show ?thesis
  proof cases
    case 1
    then show ?thesis by (simp add: Let_def)
  next
    case 2
    then show ?thesis by (cases cs rule: list4_cases) (simp_all add: Let_def)
  next
    case 3
    then have j: "j = Suc (Suc 0)" by simp
    show ?thesis unfolding j by (cases cs rule: list4_cases) (simp_all add: Let_def)
  qed
qed

lemma DecodeRune_take:
  "fst (DecodeRune (c # take j cs)) = fst (DecodeRune (c # cs)) \<or>
   fst (DecodeRune (c # take j cs)) = RuneError"
proof (cases "j < 3")
  case True
  then show ?thesis by (rule DecodeRune_take_short)
next
  case False
  then have "take 3 (take j cs) = take 3 cs" by (simp add: min_def)
  with DecodeRune_take3 [of c "take j cs"] DecodeRune_take3 [of c cs]
  have "DecodeRune (c # take j cs) = DecodeRune (c # cs)" by (simp del: DecodeRune.simps)
  then show ?thesis by (simp del: DecodeRune.simps)
qed

lemma IsSpace_RuneError: "\<not> IsSpace RuneError"
  by (simp add: IsSpace_def RuneError_def)

lemma TrimRightSpace_idem: "TrimRightSpace (TrimRightSpace s) = TrimRightSpace s"
proof (induction s rule: TrimRightSpace.induct)
  case (1 s)
  show ?case
  proof (cases "s = []")
    case True
    then show ?thesis by (simp add: TrimRightSpace.simps)
  next
    case False
    obtain r sz where d: "DecodeLastRune s = (r, sz)" by (cases "DecodeLastRune s") auto
    show ?thesis
    proof (cases "IsSpace r")
      case True
      with False d have "TrimRightSpace s = TrimRightSpace (take (length s - sz) s)"
        by (subst TrimRightSpace.simps) simp
      with "1.IH" [OF False d [symmetric] True] show ?thesis by simp
    next
      case n: False
      with False d have "TrimRightSpace s = s"
        by (subst TrimRightSpace.simps) simp
      then show ?thesis by simp
    qed
  qed
qed

lemma TrimRightSpace_prefix: "\<exists>k. TrimRightSpace s = take k s"
proof (induction s rule: TrimRightSpace.induct)
  case (1 s)
  show ?case
  proof (cases "s = []")
    case True
    then show ?thesis by (simp add: TrimRightSpace.simps)
  next
    case False
    obtain r sz where d: "DecodeLastRune s = (r, sz)" by (cases "DecodeLastRune s") auto
    show ?thesis
    proof (cases "IsSpace r")
      case True
      with False d have e: "TrimRightSpace s = TrimRightSpace (take (length s - sz) s)"
        by (subst TrimRightSpace.simps) simp
      from "1.IH" [OF False d [symmetric] True] obtain k
        where "TrimRightSpace (take (length s - sz) s) = take k (take (length s - sz) s)" by blast
      with e have "TrimRightSpace s = take (min k (length s - sz)) s" by (simp add: take_take)
      then show ?thesis by blast
    next
      case n: False
      with False d have "TrimRightSpace s = s"
        by (subst TrimRightSpace.simps) simp
      then have "TrimRightSpace s = take (length s) s" by simp
      then show ?thesis by blast
    qed
  qed
qed

lemma TrimLeftSpace_first: "TrimLeftSpace s = [] \<or> \<not> IsSpace (fst (DecodeRune (TrimLeftSpace s)))"
proof (induction s rule: TrimLeftSpace.induct)
  case 1
  show ?case by simp
next
  case (2 c cs)
  obtain r sz where d: "DecodeRune (c # cs) = (r, sz)" by (cases "DecodeRune (c # cs)") auto
  show ?case
  proof (cases "IsSpace r")
    case True
    with d have "TrimLeftSpace (c # cs) = TrimLeftSpace (drop (sz - 1) cs)" by simp
    with "2.IH" [OF d [symmetric] True] show ?thesis by simp
  next
    case False
    with d have "TrimLeftSpace (c # cs) = c # cs" by simp
    with d False show ?thesis by simp
  qed
qed

lemma TrimLeftSpace_fix: "s = [] \<or> \<not> IsSpace (fst (DecodeRune s)) \<Longrightarrow> TrimLeftSpace s = s"
  by (cases s) (auto split: prod.splits)

lemma first_rune_take:
  assumes "\<not> IsSpace (fst (DecodeRune u))"
  shows "take k u = [] \<or> \<not> IsSpace (fst (DecodeRune (take k u)))"
proof (cases u)
  case Nil
  then show ?thesis by simp
next
  case (Cons c cs)
  show ?thesis
  proof (cases k)
    case 0
    then show ?thesis by simp
  next
    case (Suc j)
    with Cons have "take k u = c # take j cs" by simp
    with DecodeRune_take [of c j cs] assms Cons IsSpace_RuneError show ?thesis by auto
  qed
qed

lemma TrimSpace_idem: "TrimSpace (TrimSpace s) = TrimSpace s"
proof -
  define u where "u = TrimLeftSpace s"
  obtain k where k: "TrimRightSpace u = take k u"
    using TrimRightSpace_prefix by blast
  have "u = [] \<or> \<not> IsSpace (fst (DecodeRune u))"
    unfolding u_def by (rule TrimLeftSpace_first)
  then have "\<not> IsSpace (fst (DecodeRune u))"
    using IsSpace_RuneError by auto
  then have "take k u = [] \<or> \<not> IsSpace (fst (DecodeRune (take k u)))"
    by (rule first_rune_take)
  then have "TrimLeftSpace (TrimRightSpace u) = TrimRightSpace u"
    using k TrimLeftSpace_fix by simp
  then show ?thesis
    by (simp add: TrimSpace_def u_def TrimRightSpace_idem)
qed

lemma TrimRightSpace_last:
  "TrimRightSpace s = [] \<or> \<not> IsSpace (fst (DecodeLastRune (TrimRightSpace s)))"
proof (induction s rule: TrimRightSpace.induct)
  case (1 s)
  show ?case
  proof (cases "s = []")
    case True
    then show ?thesis by (simp add: TrimRightSpace.simps)
  next
    case False
    obtain r sz where d: "DecodeLastRune s = (r, sz)" by (cases "DecodeLastRune s") auto
    show ?thesis
    proof (cases "IsSpace r")
      case True
      with False d have "TrimRightSpace s = TrimRightSpace (take (length s - sz) s)"
        by (subst TrimRightSpace.simps) simp
      with "1.IH" [OF False d [symmetric] True] show ?thesis by simp
    next
      case n: False
      with False d have "TrimRightSpace s = s"
        by (subst TrimRightSpace.simps) simp
      with d n show ?thesis by simp
    qed
  qed
qed

definition trimmed :: "string \<Rightarrow> bool" where
  "trimmed x = (x \<noteq> [] \<and> TrimSpace x = x \<and> \<not> IsSpace (fst (DecodeRune x)) \<and>
     \<not> IsSpace (fst (DecodeLastRune x)))"

lemma TrimSpace_trimmed: "TrimSpace y \<noteq> [] \<Longrightarrow> trimmed (TrimSpace y)"
proof -
  assume ne: "TrimSpace y \<noteq> []"
  define u where "u = TrimLeftSpace y"
  obtain k where k: "TrimRightSpace u = take k u"
    using TrimRightSpace_prefix by blast
  have "u = [] \<or> \<not> IsSpace (fst (DecodeRune u))"
    unfolding u_def by (rule TrimLeftSpace_first)
  then have "\<not> IsSpace (fst (DecodeRune u))"
    using IsSpace_RuneError by auto
  then have "take k u = [] \<or> \<not> IsSpace (fst (DecodeRune (take k u)))"
    by (rule first_rune_take)
  with k ne have first: "\<not> IsSpace (fst (DecodeRune (TrimSpace y)))"
    by (simp add: TrimSpace_def u_def)
  from TrimRightSpace_last [of u] ne have last: "\<not> IsSpace (fst (DecodeLastRune (TrimSpace y)))"
    by (simp add: TrimSpace_def u_def)
  from ne first last show ?thesis
    by (simp add: trimmed_def TrimSpace_idem)
qed

section \<open>Facts about the loop\<close>

lemma loop_step:
  "i < length rs \<Longrightarrow> loop rs i s = loop rs (fst (body rs i s) + 1) (snd (body rs i s))"
  by (subst loop.simps) (simp add: case_prod_beta)

lemma loop_done: "\<not> i < length rs \<Longrightarrow> loop rs i s = s"
  by (subst loop.simps) simp

lemma nth_in_drop: "i < length rs \<Longrightarrow> rs ! i \<in> set (drop i rs)"
  by (auto simp: in_set_conv_nth intro!: exI [of _ 0])

lemma drop_Suc_subset: "set (drop (Suc i) rs) \<subseteq> set (drop i rs)"
  by (rule set_drop_subset_set_drop) simp

text \<open>A line comment that meets no newline runs to the end of the input.\<close>

lemma loop_line_comment_to_end:
  "inLineComment s \<Longrightarrow> 0x0A \<notin> set (drop i rs) \<Longrightarrow> loop rs i s = s"
proof (induction rs i s rule: loop.induct)
  case (1 rs i s)
  show ?case
  proof (cases "i < length rs")
    case False
    then show ?thesis by (rule loop_done)
  next
    case True
    from True have "rs ! i \<in> set (drop i rs)" by (rule nth_in_drop)
    with "1.prems"(2) have ne: "rs ! i \<noteq> 0x0A" by auto
    with "1.prems"(1) have b: "body rs i s = (i, s)"
      by (simp add: body_def)
    from "1.prems"(2) drop_Suc_subset [of i rs] have "0x0A \<notin> set (drop (i + 1) rs)"
      by auto
    with "1.IH" [OF True b [symmetric]] "1.prems"(1) have "loop rs (i + 1) s = s" by simp
    with True b show ?thesis by (simp add: loop_step)
  qed
qed











lemma TrimSpace_Nil: "TrimSpace [] = []"
  by (simp add: TrimSpace_def TrimRightSpace.simps)

lemma parseSQL_Nil: "parseSQL [] = ([], None)"
  by (simp add: parseSQL_def runes_def loop_done init_def TrimSpace_Nil)

lemma parseSQL_emit: "fst (parseSQL t) = emit (loop (runes t) 0 init)"
  by (simp add: parseSQL_def emit_def Let_def)










lemma body_statements:
  "statements (snd (body rs i s)) = statements s \<or>
   TrimSpace (currentStmt s) \<noteq> [] \<and>
   statements (snd (body rs i s)) = statements s @ [TrimSpace (currentStmt s)]"
  by (simp add: body_def Let_def)

lemma body_trimmed:
  "\<forall>x \<in> set (statements s). trimmed x \<Longrightarrow> \<forall>x \<in> set (statements (snd (body rs i s))). trimmed x"
  using body_statements [of rs i s] by (auto simp: TrimSpace_trimmed)

lemma loop_trimmed:
  "\<forall>x \<in> set (statements s). trimmed x \<Longrightarrow> \<forall>x \<in> set (statements (loop rs i s)). trimmed x"
proof (induction rs i s rule: loop.induct)
  case (1 rs i s)
  show ?case
  proof (cases "i < length rs")
    case False
    with "1.prems" show ?thesis by (simp add: loop_done)
  next
    case True
    obtain i' s' where b: "body rs i s = (i', s')" by (cases "body rs i s") auto
    from body_trimmed [OF "1.prems", of rs i] b have "\<forall>x \<in> set (statements s'). trimmed x"
      by simp
    from "1.IH" [OF True b [symmetric] this] True b show ?thesis
      by (simp add: loop_step)
  qed
qed

lemma parseSQL_trimmed: "\<forall>x \<in> set (fst (parseSQL content)). trimmed x"
proof -
  have "\<forall>x \<in> set (statements (loop (runes content) 0 init)). trimmed x"
    by (rule loop_trimmed) (simp add: init_def)
  then show ?thesis
    by (auto simp: parseSQL_emit emit_def Let_def TrimSpace_trimmed)
qed

section \<open>Totality of the splitter\<close>


section \<open>String literals\<close>

text \<open>
  Claim C1. Inside a single-quoted string literal the terminator and the sequences that
  open a comment are literal text. In string mode every rune other than the quote is
  appended to the accumulator as it is, with the mode and the statements unchanged; a
  doubled quote is appended whole and the scan stays in the string; a single quote is
  appended and closes the string. Hence \<^verbatim>\<open>SELECT 'a;b;c';\<close> is one statement,
  \<^verbatim>\<open>SELECT 'it''s working';\<close> keeps its doubled quote, and
  \<^verbatim>\<open>SELECT '-- not a comment'; SELECT '/* also not */';\<close> gives two statements with both
  literals intact.
\<close>

theorem string_literal_is_opaque:
  "(inString s \<and> \<not> inLineComment s \<and> \<not> inBlockComment s \<and> rs ! i \<noteq> 0x27 \<longrightarrow>
      body rs i s = (i, s\<lparr>currentStmt := currentStmt s @ EncodeRune (rs ! i)\<rparr>)) \<and>
   (inString s \<and> \<not> inLineComment s \<and> \<not> inBlockComment s \<and> rs ! i = 0x27 \<and>
    i + 1 < length rs \<and> rs ! (i + 1) = 0x27 \<longrightarrow>
      body rs i s = (i + 1, s\<lparr>currentStmt := currentStmt s @ [CHR 0x27, CHR 0x27]\<rparr>)) \<and>
   (inString s \<and> \<not> inLineComment s \<and> \<not> inBlockComment s \<and> rs ! i = 0x27 \<and>
    \<not> (i + 1 < length rs \<and> rs ! (i + 1) = 0x27) \<longrightarrow>
      body rs i s = (i, s\<lparr>currentStmt := currentStmt s @ [CHR 0x27], inString := False\<rparr>)) \<and>
   parseSQL ''SELECT 'a;b;c';'' = ([''SELECT 'a;b;c'' @ [CHR 0x27]], None) \<and>
   parseSQL (''SELECT 'it'' @ [CHR 0x27, CHR 0x27] @ ''s working';'') =
     ([''SELECT 'it'' @ [CHR 0x27, CHR 0x27] @ ''s working'' @ [CHR 0x27]], None) \<and>
   parseSQL ''SELECT '-- not a comment'; SELECT '/* also not */';'' =
     ([''SELECT '-- not a comment'' @ [CHR 0x27], ''SELECT '/* also not */'' @ [CHR 0x27]], None)"
proof (intro conjI impI)
  assume "inString s \<and> \<not> inLineComment s \<and> \<not> inBlockComment s \<and> rs ! i \<noteq> 0x27"
  then show "body rs i s = (i, s\<lparr>currentStmt := currentStmt s @ EncodeRune (rs ! i)\<rparr>)"
    by (simp add: body_def WriteRune_def)
next
  assume "inString s \<and> \<not> inLineComment s \<and> \<not> inBlockComment s \<and> rs ! i = 0x27 \<and>
    i + 1 < length rs \<and> rs ! (i + 1) = 0x27"
  then show "body rs i s = (i + 1, s\<lparr>currentStmt := currentStmt s @ [CHR 0x27, CHR 0x27]\<rparr>)"
    by (simp add: body_def WriteRune_def EncodeRune_def char_of_def)
next
  assume "inString s \<and> \<not> inLineComment s \<and> \<not> inBlockComment s \<and> rs ! i = 0x27 \<and>
    \<not> (i + 1 < length rs \<and> rs ! (i + 1) = 0x27)"
  then show "body rs i s = (i, s\<lparr>currentStmt := currentStmt s @ [CHR 0x27], inString := False\<rparr>)"
    by (auto simp add: body_def WriteRune_def EncodeRune_def char_of_def)
next
  show "parseSQL ''SELECT 'a;b;c';'' = ([''SELECT 'a;b;c'' @ [CHR 0x27]], None)"
    by code_simp
  show "parseSQL (''SELECT 'it'' @ [CHR 0x27, CHR 0x27] @ ''s working';'') =
     ([''SELECT 'it'' @ [CHR 0x27, CHR 0x27] @ ''s working'' @ [CHR 0x27]], None)"
    by code_simp
  show "parseSQL ''SELECT '-- not a comment'; SELECT '/* also not */';'' =
     ([''SELECT '-- not a comment'' @ [CHR 0x27], ''SELECT '/* also not */'' @ [CHR 0x27]], None)"
    by code_simp
qed

theorem string_literal_is_opaque_witness:
  "body [0x27, 0x3B, 0x27] 1 (init\<lparr>inString := True, currentStmt := [CHR 0x27]\<rparr>) =
     (1, init\<lparr>inString := True, currentStmt := [CHR 0x27, CHR 0x3B]\<rparr>) \<and>
   body [0x27, 0x27, 0x27] 1 (init\<lparr>inString := True, currentStmt := [CHR 0x27]\<rparr>) =
     (2, init\<lparr>inString := True, currentStmt := [CHR 0x27, CHR 0x27, CHR 0x27]\<rparr>) \<and>
   body [0x27, 0x27] 1 (init\<lparr>inString := True, currentStmt := [CHR 0x27]\<rparr>) =
     (1, init\<lparr>inString := False, currentStmt := [CHR 0x27, CHR 0x27]\<rparr>)"
  using string_literal_is_opaque [of "init\<lparr>inString := True, currentStmt := [CHR 0x27]\<rparr>" "[0x27, 0x3B, 0x27]" 1]
    string_literal_is_opaque [of "init\<lparr>inString := True, currentStmt := [CHR 0x27]\<rparr>" "[0x27, 0x27, 0x27]" 1]
    string_literal_is_opaque [of "init\<lparr>inString := True, currentStmt := [CHR 0x27]\<rparr>" "[0x27, 0x27]" 1]
  by (simp add: init_def EncodeRune_def char_of_def)

section \<open>Terminators, order and count\<close>




section \<open>Block comments\<close>



section \<open>Line comments\<close>

text \<open>
  Claim C5. In line-comment mode every rune other than the newline is discarded; the
  newline is appended to the accumulator and ends the comment; a comment that meets no
  newline before the end of the input leaves the variables as they were when it began,
  so no newline is appended. \<^verbatim>\<open>-- comment only\<close> gives no statement.
\<close>

theorem line_comment_discarded:
  "(inLineComment s \<and> rs ! i \<noteq> 0x0A \<longrightarrow> body rs i s = (i, s)) \<and>
   (inLineComment s \<and> rs ! i = 0x0A \<longrightarrow>
      body rs i s = (i, s\<lparr>inLineComment := False, currentStmt := currentStmt s @ [CHR 0x0A]\<rparr>)) \<and>
   (inLineComment s \<and> 0x0A \<notin> set (drop i rs) \<longrightarrow> loop rs i s = s) \<and>
   parseSQL ''-- comment only'' = ([], None) \<and>
   parseSQL ''SELECT 1 -- trailing'' = ([''SELECT 1''], None) \<and>
   parseSQL (''SELECT 1 -- first'' @ [CHR 0x0A] @ ''FROM t;'') =
     ([''SELECT 1 '' @ [CHR 0x0A] @ ''FROM t''], None)"
proof (intro conjI impI)
  assume "inLineComment s \<and> rs ! i \<noteq> 0x0A"
  then show "body rs i s = (i, s)"
    by (simp add: body_def)
next
  assume "inLineComment s \<and> rs ! i = 0x0A"
  then show "body rs i s = (i, s\<lparr>inLineComment := False, currentStmt := currentStmt s @ [CHR 0x0A]\<rparr>)"
    by (simp add: body_def WriteRune_def EncodeRune_def char_of_def)
next
  assume "inLineComment s \<and> 0x0A \<notin> set (drop i rs)"
  then show "loop rs i s = s"
    by (simp add: loop_line_comment_to_end)
next
  show "parseSQL ''-- comment only'' = ([], None)"
    by code_simp
  show "parseSQL ''SELECT 1 -- trailing'' = ([''SELECT 1''], None)"
    by code_simp
  show "parseSQL (''SELECT 1 -- first'' @ [CHR 0x0A] @ ''FROM t;'') =
     ([''SELECT 1 '' @ [CHR 0x0A] @ ''FROM t''], None)"
    by code_simp
qed

theorem line_comment_discarded_witness:
  "body [0x2D, 0x2D, 0x3B, 0x0A] 2 (init\<lparr>inLineComment := True\<rparr>) = (2, init\<lparr>inLineComment := True\<rparr>) \<and>
   body [0x2D, 0x2D, 0x3B, 0x0A] 3 (init\<lparr>inLineComment := True\<rparr>) = (3, init\<lparr>currentStmt := [CHR 0x0A]\<rparr>) \<and>
   loop [0x2D, 0x2D, 0x3B, 0x27] 2 (init\<lparr>inLineComment := True\<rparr>) = init\<lparr>inLineComment := True\<rparr>"
  using line_comment_discarded [of "init\<lparr>inLineComment := True\<rparr>" "[0x2D, 0x2D, 0x3B, 0x0A]" 2]
    line_comment_discarded [of "init\<lparr>inLineComment := True\<rparr>" "[0x2D, 0x2D, 0x3B, 0x0A]" 3]
    line_comment_discarded [of "init\<lparr>inLineComment := True\<rparr>" "[0x2D, 0x2D, 0x3B, 0x27]" 2]
  by (simp add: init_def)

section \<open>The normalizer under its precondition\<close>

text \<open>
  Claim C10. For every statement and every \<open>maxLen\<close> of at least 4, \<^verbatim>\<open>truncateStatement\<close>
  returns a string and does not panic. When the collapsed statement is no longer than
  \<open>maxLen\<close> bytes it is returned; otherwise, in the truncation branch, the upper bound
  \<open>maxLen - 3\<close> of the slice is non-negative and strictly below the length of the collapsed
  statement, so the slice expression is in range and the result is that prefix followed
  by the ellipsis. (\<^verbatim>\<open>strings.Fields\<close> and \<^verbatim>\<open>strings.Join\<close> are total, and \<open>maxLen - 3\<close> cannot
  wrap around for \<open>maxLen\<close> of at least 4.)
\<close>

theorem truncateStatement_total:
  "4 \<le> maxLen \<Longrightarrow>
     (\<exists>r. truncateStatement stmt maxLen = Inr r) \<and>
     (int (length (Join (Fields stmt) '' '')) \<le> maxLen \<longrightarrow>
        truncateStatement stmt maxLen = Inr (Join (Fields stmt) '' '')) \<and>
     (maxLen < int (length (Join (Fields stmt) '' '')) \<longrightarrow>
        0 \<le> maxLen - 3 \<and> maxLen - 3 < int (length (Join (Fields stmt) '' '')) \<and>
        slice_to (Join (Fields stmt) '' '') (maxLen - 3) =
          Inr (take (nat (maxLen - 3)) (Join (Fields stmt) '' '')) \<and>
        truncateStatement stmt maxLen =
          Inr (take (nat (maxLen - 3)) (Join (Fields stmt) '' '') @ ''...''))"
  by (simp add: truncateStatement_def slice_to_def Let_def)

theorem truncateStatement_total_witness:
  "truncateStatement ''SELECT 1'' 4 = Inr ''S...'' \<and>
   truncateStatement ''SELECT 1'' 8 = Inr ''SELECT 1''"
proof -
  have c: "Join (Fields ''SELECT 1'') '' '' = ''SELECT 1''" by code_simp
  from truncateStatement_total [of 4 "''SELECT 1''"] truncateStatement_total [of 8 "''SELECT 1''"] c
  show ?thesis by simp
qed

section \<open>Code points and bytes\<close>

text \<open>
  Claim C9. The scan of \<^verbatim>\<open>parseSQL\<close> runs over the runes of the input, and a statement with
  a two-byte character comes out with its bytes intact. \<^verbatim>\<open>truncateStatement\<close> slices the
  bytes of the collapsed statement: for a well-formed statement of 55 bytes whose bytes
  46 and 47 encode one character, truncation to 50 keeps 47 bytes, the first byte of that
  character being the last of them, and the result is not well-formed UTF-8.
\<close>

theorem truncation_splits_a_character:
  "ValidString (''SELECT names FROM customers WHERE city = 'Malm'' @
      [CHR 0xC3, CHR 0xB6, CHR 0x27] @ '' AND 1'') \<and>
   truncateStatement (''SELECT names FROM customers WHERE city = 'Malm'' @
      [CHR 0xC3, CHR 0xB6, CHR 0x27] @ '' AND 1'') 50 =
     Inr (''SELECT names FROM customers WHERE city = 'Malm'' @ [CHR 0xC3] @ ''...'') \<and>
   \<not> ValidString (''SELECT names FROM customers WHERE city = 'Malm'' @ [CHR 0xC3] @ ''...'') \<and>
   parseSQL (''SELECT names FROM customers WHERE city = 'Malm'' @
      [CHR 0xC3, CHR 0xB6, CHR 0x27] @ '' AND 1;'') =
     ([''SELECT names FROM customers WHERE city = 'Malm'' @
      [CHR 0xC3, CHR 0xB6, CHR 0x27] @ '' AND 1''], None)"
  by code_simp

section \<open>Emitted statements\<close>

text \<open>
  Claim C6. For every input text, every statement that \<^verbatim>\<open>parseSQL\<close> returns, whether it
  was emitted at a terminator or at the end of the input, is non-empty and equals its own
  \<^verbatim>\<open>TrimSpace\<close>; its first and its last rune are no white space. A candidate that is
  empty after trimming is not emitted: the empty text, a text of white space only, and
  blank pieces between terminators give no statement.
\<close>

theorem emitted_statements_are_trimmed:
  "(\<forall>x \<in> set (fst (parseSQL content)).
      x \<noteq> [] \<and> TrimSpace x = x \<and> \<not> IsSpace (fst (DecodeRune x)) \<and>
      \<not> IsSpace (fst (DecodeLastRune x))) \<and>
   parseSQL [] = ([], None) \<and>
   parseSQL (''   '' @ [CHR 0x0A, CHR 0x09, CHR 0x0A] @ ''   '') = ([], None) \<and>
   parseSQL '' ; ;  '' = ([], None) \<and>
   parseSQL ''  a  ;  b  '' = ([''a'', ''b''], None)"
proof (intro conjI)
  from parseSQL_trimmed [of content]
  show "\<forall>x \<in> set (fst (parseSQL content)).
      x \<noteq> [] \<and> TrimSpace x = x \<and> \<not> IsSpace (fst (DecodeRune x)) \<and>
      \<not> IsSpace (fst (DecodeLastRune x))"
    by (simp add: trimmed_def)
  show "parseSQL [] = ([], None)" by (rule parseSQL_Nil)
  show "parseSQL (''   '' @ [CHR 0x0A, CHR 0x09, CHR 0x0A] @ ''   '') = ([], None)" by code_simp
  show "parseSQL '' ; ;  '' = ([], None)" by code_simp
  show "parseSQL ''  a  ;  b  '' = ([''a'', ''b''], None)" by code_simp
qed

theorem emitted_statements_are_trimmed_witness:
  "TrimSpace ''a'' = ''a'' \<and> TrimSpace ''SELECT ' b ' x'' = ''SELECT ' b ' x'' \<and>
   \<not> IsSpace (fst (DecodeRune ''a'')) \<and> \<not> IsSpace (fst (DecodeLastRune ''SELECT ' b ' x''))"
proof -
  have e: "fst (parseSQL ''  a  ;  SELECT ' b ' x   '') = [''a'', ''SELECT ' b ' x'']" by code_simp
  from emitted_statements_are_trimmed [of "''  a  ;  SELECT ' b ' x   ''"] e
  show ?thesis by simp
qed

end
